theory Spec2Isabelle
  imports Main "HOL-Library.Multiset"
begin

section \<open>Python strings\<close>

text \<open>
  A Python \<open>str\<close> is a sequence of Unicode code points, so it is modelled as a list of
  natural numbers (one per code point), not as a list of bytes. \<open>py\<close> embeds an ASCII
  literal; code points beyond ASCII are written as numbers.
\<close>

type_synonym pystr = "nat list"

definition py :: "string \<Rightarrow> pystr" where
  "py s = map of_char s"

definition underscore :: nat where
  "underscore = 95"

definition hyphen :: nat where
  "hyphen = 45"

text \<open>\<open>s.startswith(p)\<close>.\<close>

definition startswith :: "'a list \<Rightarrow> 'a list \<Rightarrow> bool" where
  "startswith s p = (take (length p) s = p)"

text \<open>
  \<open>s.replace(old, new, count)\<close> for a count \<open>k\<close> that is not negative: the first \<open>k\<close>
  occurrences of \<open>old\<close>, found from the left and not overlapping, are replaced. For an
  empty \<open>old\<close> Python inserts \<open>new\<close> before each of the first \<open>k\<close> positions.
\<close>

fun replace_empty :: "pystr \<Rightarrow> nat \<Rightarrow> pystr \<Rightarrow> pystr" where
  "replace_empty new 0 s = s"
| "replace_empty new (Suc n) [] = new"
| "replace_empty new (Suc n) (c # cs) = new @ c # replace_empty new n cs"

function replace_nonempty :: "pystr \<Rightarrow> pystr \<Rightarrow> nat \<Rightarrow> pystr \<Rightarrow> pystr" where
  "replace_nonempty old new k s =
     (if k = 0 \<or> old = [] \<or> s = [] then s
      else if startswith s old
        then new @ replace_nonempty old new (k - 1) (drop (length old) s)
        else hd s # replace_nonempty old new k (tl s))"
  by pat_completeness auto
termination
  by (relation "measure (\<lambda>(old, new, k, s). length s)") auto

declare replace_nonempty.simps [simp del]

definition py_replace :: "pystr \<Rightarrow> pystr \<Rightarrow> pystr \<Rightarrow> nat \<Rightarrow> pystr" where
  "py_replace s old new k =
     (if old = [] then replace_empty new k s else replace_nonempty old new k s)"

text \<open>\<open>str(i)\<close> for an integer, as an f-string renders it: decimal digits, with a sign.\<close>

function nat_digits :: "nat \<Rightarrow> pystr" where
  "nat_digits n = (if n < 10 then [48 + n] else nat_digits (n div 10) @ [48 + n mod 10])"
  by pat_completeness auto
termination
  by (relation "measure id") auto

declare nat_digits.simps [simp del]

definition str_int :: "int \<Rightarrow> pystr" where
  "str_int i = (if i < 0 then hyphen # nat_digits (nat (- i)) else nat_digits (nat i))"

section \<open>Identifier sanitization\<close>

text \<open>
  \<open>clean_filename(text)\<close> is \<open>re.sub(r'[^\w\-_]', '_', text)\<close>. The pattern is one negated
  character class whose members are \<open>\w\<close>, the hyphen and the underscore. On a \<open>str\<close>
  pattern \<open>\w\<close> is Unicode aware: it matches the underscore and every alphanumeric
  code point. The alphanumeric code points of ASCII are written out; those beyond ASCII
  come from the Unicode database of the interpreter, which is not part of the
  repository, so the database is the parameter \<open>U\<close>.
\<close>

definition ascii_alnum :: "nat \<Rightarrow> bool" where
  "ascii_alnum c = ((48 \<le> c \<and> c \<le> 57) \<or> (65 \<le> c \<and> c \<le> 90) \<or> (97 \<le> c \<and> c \<le> 122))"

definition alnum :: "(nat \<Rightarrow> bool) \<Rightarrow> nat \<Rightarrow> bool" where
  "alnum U c = (if c < 128 then ascii_alnum c else U c)"

datatype class_item = Word | Lit nat

fun item_matches :: "(nat \<Rightarrow> bool) \<Rightarrow> class_item \<Rightarrow> nat \<Rightarrow> bool" where
  "item_matches U Word c = (alnum U c \<or> c = underscore)"
| "item_matches U (Lit d) c = (c = d)"

text \<open>The negated class \<open>[^...]\<close> matches a code point that no member matches.\<close>

definition negated_class :: "(nat \<Rightarrow> bool) \<Rightarrow> class_item list \<Rightarrow> nat \<Rightarrow> bool" where
  "negated_class U items c = (\<not> list_ex (\<lambda>i. item_matches U i c) items)"

text \<open>
  \<open>re.sub\<close> with a pattern that matches exactly one code point: the text is scanned from
  the left, each matching code point is replaced by the replacement, every other one is
  copied.
\<close>

fun re_sub_class :: "(nat \<Rightarrow> bool) \<Rightarrow> pystr \<Rightarrow> pystr \<Rightarrow> pystr" where
  "re_sub_class m repl [] = []"
| "re_sub_class m repl (c # cs) =
     (if m c then repl @ re_sub_class m repl cs else c # re_sub_class m repl cs)"

definition clean_filename :: "(nat \<Rightarrow> bool) \<Rightarrow> pystr \<Rightarrow> pystr" where
  "clean_filename U s =
     re_sub_class (negated_class U [Word, Lit hyphen, Lit underscore]) (py ''_'') s"

section \<open>Search\<close>

text \<open>
  A repository descriptor is the dictionary that \<open>search_github\<close> builds for each item
  of a result page: keys \<open>name\<close>, \<open>full_name\<close>, \<open>clone_url\<close>, \<open>stars\<close>, \<open>owner\<close>.
\<close>

record repo =
  name :: pystr
  full_name :: pystr
  clone_url :: pystr
  stars :: int
  owner :: pystr

text \<open>
  One page request: its query parameters and the \<open>Authorization\<close> header, which is
  present only when the token is not empty.
\<close>

record request =
  param_q :: pystr
  param_sort :: pystr
  param_order :: pystr
  param_per_page :: nat
  param_page :: nat
  authorization :: "pystr option"

text \<open>
  What the loop reads from one item of a page: the five keys, \<open>Item\<close>, or an item that
  lacks one of them, \<open>Malformed\<close>, on which the subscript raises inside the \<open>try\<close>.
\<close>

datatype raw_item = Item repo | Malformed

text \<open>
  The answer to a page request: \<open>Raises\<close> when \<open>requests.get\<close> or \<open>r.json()\<close> raises
  (a transport failure, a timeout, a body that is not JSON), otherwise the status code
  with the list under \<open>items\<close> of the body (empty when the key is absent).
  The service is a function from requests to answers; the loop never issues the same
  request twice, so nothing is lost by that.
\<close>

datatype response = Raises | Reply nat "raw_item list"

text \<open>
  How the \<open>while\<close> loop is left. The one \<open>except\<close> clause is reached from the request
  (\<open>In_Request\<close>) or from an item that lacks a key (\<open>In_Item\<close>).
\<close>

datatype raised = In_Request | In_Item

datatype loop_exit =
  Limit_Reached
  | Return_401
  | Break_403
  | Break_Status nat
  | Break_No_Items
  | Break_Exception raised
  | Break_Page_Ceiling

text \<open>
  The \<open>for item in items\<close> loop: append the descriptor of each item, stop as soon as
  the list has \<open>limit\<close> entries. The flag of the result says that an item raised; the
  descriptors appended before it stay in the list.
\<close>

fun append_items :: "int \<Rightarrow> repo list \<Rightarrow> raw_item list \<Rightarrow> repo list \<times> bool" where
  "append_items limit repos_found [] = (repos_found, False)"
| "append_items limit repos_found (Malformed # items) = (repos_found, True)"
| "append_items limit repos_found (Item r # items) =
     (if int (length (repos_found @ [r])) \<ge> limit then (repos_found @ [r], False)
      else append_items limit (repos_found @ [r]) items)"

definition build_request :: "pystr \<Rightarrow> pystr \<Rightarrow> nat \<Rightarrow> request" where
  "build_request query token p =
     \<lparr>param_q = query, param_sort = py ''stars'', param_order = py ''desc'',
      param_per_page = 100, param_page = p,
      authorization = (if token \<noteq> [] then Some (py ''token '' @ token) else None)\<rparr>"

text \<open>
  The \<open>while len(repos_found) < limit\<close> loop, from the state \<open>(repos_found, page)\<close>.
  The result is how the loop was left, \<open>repos_found\<close> at that moment, and the requests
  issued from this state on, in order.
\<close>

function search_loop ::
  "(request \<Rightarrow> response) \<Rightarrow> pystr \<Rightarrow> int \<Rightarrow> pystr \<Rightarrow> repo list \<Rightarrow> nat
     \<Rightarrow> loop_exit \<times> repo list \<times> request list" where
  "search_loop api query limit token repos_found p =
     (if \<not> int (length repos_found) < limit then (Limit_Reached, repos_found, [])
      else
        (let req = build_request query token p in
         (case api req of
            Raises \<Rightarrow> (Break_Exception In_Request, repos_found, [req])
          | Reply status items \<Rightarrow>
              (if status = 401 then (Return_401, repos_found, [req])
               else if status = 403 then (Break_403, repos_found, [req])
               else if status \<noteq> 200 then (Break_Status status, repos_found, [req])
               else if items = [] then (Break_No_Items, repos_found, [req])
               else
                 (case append_items limit repos_found items of
                    (repos_found', True) \<Rightarrow> (Break_Exception In_Item, repos_found', [req])
                  | (repos_found', False) \<Rightarrow>
                      (if p + 1 > 10 then (Break_Page_Ceiling, repos_found', [req])
                       else
                         (case search_loop api query limit token repos_found' (p + 1) of
                            (how, found, sent) \<Rightarrow> (how, found, req # sent))))))))"
  by pat_completeness auto
termination
  by (relation "measure (\<lambda>(api, query, limit, token, repos_found, p). 11 - p)") auto

declare search_loop.simps [simp del]

text \<open>
  The condition under which an iteration of the loop is followed by another one: the
  limit is not reached, the page answers 200 with items, no item raises, and the page
  number stays below the ceiling. In every other case the iteration is the last.
\<close>

definition continues ::
  "(request \<Rightarrow> response) \<Rightarrow> pystr \<Rightarrow> int \<Rightarrow> pystr \<Rightarrow> repo list \<Rightarrow> nat \<Rightarrow> bool" where
  "continues api query limit token found p =
     (int (length found) < limit \<and> p < 10 \<and>
      (case api (build_request query token p) of
         Raises \<Rightarrow> False
       | Reply status items \<Rightarrow>
           status = 200 \<and> items \<noteq> [] \<and> \<not> snd (append_items limit found items)))"

text \<open>
  \<open>list.sort(key=..., reverse=...)\<close>: a stable sort; with \<open>reverse\<close> the list is
  reversed, sorted and reversed again, which keeps equal keys in their first order.
\<close>

definition py_sort :: "('a \<Rightarrow> int) \<Rightarrow> bool \<Rightarrow> 'a list \<Rightarrow> 'a list" where
  "py_sort key reverse xs =
     (if reverse then rev (sort_key key (rev xs)) else sort_key key xs)"

text \<open>The slice \<open>xs[:n]\<close>; a negative \<open>n\<close> counts from the end.\<close>

definition slice_to :: "int \<Rightarrow> 'a list \<Rightarrow> 'a list" where
  "slice_to n xs = (if n < 0 then take (length xs - nat (- n)) xs else take (nat n) xs)"

text \<open>The loop as \<open>search_github\<close> starts it: nothing found yet, page 1.\<close>

definition search_run ::
  "(request \<Rightarrow> response) \<Rightarrow> pystr \<Rightarrow> int \<Rightarrow> pystr \<Rightarrow> loop_exit \<times> repo list \<times> request list" where
  "search_run api query limit token = search_loop api query limit token [] 1"

text \<open>
  \<open>search_github(query, limit, token)\<close> against the service \<open>api\<close>: on a 401 the
  function returns the empty list at once; on every other exit the accumulated list is
  sorted by stars, largest first, and cut to \<open>limit\<close>.
\<close>

definition search_github :: "(request \<Rightarrow> response) \<Rightarrow> pystr \<Rightarrow> int \<Rightarrow> pystr \<Rightarrow> repo list" where
  "search_github api query limit token =
     (case search_run api query limit token of
        (Return_401, repos_found, sent) \<Rightarrow> []
      | (how, repos_found, sent) \<Rightarrow> slice_to limit (py_sort stars True repos_found))"

text \<open>
  What a run of the search lets one observe besides its result: the page requests
  issued, in order; the list accumulated when the loop was left; and the items that the
  fetched pages carried, that is the items of every answer with status 200, in the order
  of the requests.
\<close>

definition search_requests :: "(request \<Rightarrow> response) \<Rightarrow> pystr \<Rightarrow> int \<Rightarrow> pystr \<Rightarrow> request list" where
  "search_requests api query limit token = snd (snd (search_run api query limit token))"

definition search_exit :: "(request \<Rightarrow> response) \<Rightarrow> pystr \<Rightarrow> int \<Rightarrow> pystr \<Rightarrow> loop_exit" where
  "search_exit api query limit token = fst (search_run api query limit token)"

definition accumulated :: "(request \<Rightarrow> response) \<Rightarrow> pystr \<Rightarrow> int \<Rightarrow> pystr \<Rightarrow> repo list" where
  "accumulated api query limit token = fst (snd (search_run api query limit token))"

fun page_items :: "response \<Rightarrow> raw_item list" where
  "page_items Raises = []"
| "page_items (Reply status items) = (if status = 200 then items else [])"

definition items_of :: "(request \<Rightarrow> response) \<Rightarrow> request list \<Rightarrow> raw_item list" where
  "items_of api sent = concat (map (\<lambda>req. page_items (api req)) sent)"

definition fetched_items :: "(request \<Rightarrow> response) \<Rightarrow> pystr \<Rightarrow> int \<Rightarrow> pystr \<Rightarrow> raw_item list" where
  "fetched_items api query limit token = items_of api (search_requests api query limit token)"

text \<open>The descriptors of the well-formed items of a list.\<close>

fun descriptors :: "raw_item list \<Rightarrow> repo list" where
  "descriptors [] = []"
| "descriptors (Item r # items) = r # descriptors items"
| "descriptors (Malformed # items) = descriptors items"

section \<open>Cloning\<close>

text \<open>
  A path is the list of its components below \<open>WORK_DIR\<close>. The world that a clone task
  reads and changes is the set of paths that exist there, and the log of the
  \<open>git clone\<close> subprocesses started so far.
\<close>

type_synonym path = "pystr list"

text \<open>The call \<open>subprocess.run(["git", "clone", "--depth", "1", auth_url, str(target_path)], ...)\<close>.\<close>

record git_clone =
  depth :: nat
  url :: pystr
  dest :: path
  timeout :: nat
  check :: bool
  git_terminal_prompt :: pystr

record world =
  fs :: "path set"
  calls :: "git_clone list"

text \<open>
  What the subprocess does is not in the repository; it is a parameter. The call
  completes with exit status 0 and has created the destination (the flag: with a
  \<open>.git\<close> directory in it), or it raises: \<open>CalledProcessError\<close> for another exit
  status, \<open>TimeoutExpired\<close> after 180 seconds, any other exception when the process
  cannot be started. A call that raises leaves nothing behind (\<open>None\<close>) or leaves
  the destination behind, with the given paths inside it (relative to the destination).
\<close>

datatype failure = Called_Process_Error | Timeout_Expired | Other_Exception

datatype git_result = Completed bool | Failed failure "path list option"

text \<open>
  The host: what \<open>git\<close> does on a call, and on which paths \<open>shutil.rmtree\<close> fails.
  \<open>rmtree\<close> is always called with \<open>ignore_errors=True\<close>, so a failure is silent; the
  model then leaves the tree as it was.
\<close>

record host =
  git :: "git_clone \<Rightarrow> git_result"
  rmtree_fails :: "path \<Rightarrow> bool"

definition path_exists :: "world \<Rightarrow> path \<Rightarrow> bool" where
  "path_exists w p = (p \<in> fs w)"

definition rmtree :: "host \<Rightarrow> path \<Rightarrow> world \<Rightarrow> world" where
  "rmtree h p w =
     (if rmtree_fails h p then w else w\<lparr>fs := {x \<in> fs w. \<not> startswith x p}\<rparr>)"

text \<open>\<open>subprocess.run\<close> on the call: \<open>True\<close> when it returns, \<open>False\<close> when it raises.\<close>

definition subprocess_run :: "host \<Rightarrow> git_clone \<Rightarrow> world \<Rightarrow> bool \<times> world" where
  "subprocess_run h c w =
     (case git h c of
        Completed has_git \<Rightarrow>
          (True, w\<lparr>fs := fs w \<union> {dest c} \<union> (if has_git then {dest c @ [py ''.git'']} else {}),
                   calls := calls w @ [c]\<rparr>)
      | Failed f left \<Rightarrow>
          (False,
           w\<lparr>fs := fs w \<union>
                  (case left of
                     None \<Rightarrow> {}
                   | Some inside \<Rightarrow> {dest c} \<union> (\<lambda>x. dest c @ x) ` set inside),
             calls := calls w @ [c]\<rparr>))"

text \<open>\<open>folder_name\<close> and \<open>target_path\<close> of \<open>clone_single_repo\<close>.\<close>

definition folder_name :: "(nat \<Rightarrow> bool) \<Rightarrow> repo \<Rightarrow> pystr" where
  "folder_name U repo_info = clean_filename U (name repo_info @ py ''_'' @ owner repo_info)"

definition target_path :: "(nat \<Rightarrow> bool) \<Rightarrow> repo \<Rightarrow> path" where
  "target_path U repo_info = [folder_name U repo_info]"

text \<open>\<open>auth_url\<close> of \<open>clone_single_repo\<close>.\<close>

definition auth_url :: "repo \<Rightarrow> pystr \<Rightarrow> pystr" where
  "auth_url repo_info token =
     (if token \<noteq> [] \<and> startswith (clone_url repo_info) (py ''https://github.com/'')
      then py_replace (clone_url repo_info) (py ''https://'') (py ''https://'' @ token @ py ''@'') 1
      else clone_url repo_info)"

definition clone_call :: "(nat \<Rightarrow> bool) \<Rightarrow> repo \<Rightarrow> pystr \<Rightarrow> git_clone" where
  "clone_call U repo_info token =
     \<lparr>depth = 1, url = auth_url repo_info token, dest = target_path U repo_info,
      timeout = 180, check = True, git_terminal_prompt = py ''0''\<rparr>"

text \<open>
  \<open>clone_single_repo(repo_info, token)\<close>: the value returned (\<open>None\<close> or the
  descriptor) and the world afterwards.
\<close>

definition clone_single_repo ::
  "(nat \<Rightarrow> bool) \<Rightarrow> host \<Rightarrow> repo \<Rightarrow> pystr \<Rightarrow> world \<Rightarrow> repo option \<times> world" where
  "clone_single_repo U h repo_info token w =
     (if path_exists w (target_path U repo_info) then (None, w)
      else
        (case subprocess_run h (clone_call U repo_info token) w of
           (True, w') \<Rightarrow>
             (let git_hidden = target_path U repo_info @ [py ''.git''] in
              (Some repo_info, if path_exists w' git_hidden then rmtree h git_hidden w' else w'))
         | (False, w') \<Rightarrow>
             (None,
              if path_exists w' (target_path U repo_info)
              then rmtree h (target_path U repo_info) w' else w')))"

section \<open>Counting and reporting\<close>

text \<open>
  The loop over the futures in \<open>main\<close>: \<open>results\<close> are the values of
  \<open>future.result()\<close> in the order of submission; a result counts when it is truthy,
  which \<open>None\<close> is not and a descriptor (a dictionary with five keys) is.
\<close>

fun truthy :: "repo option \<Rightarrow> bool" where
  "truthy None = False"
| "truthy (Some r) = True"

fun count_loop :: "nat \<Rightarrow> repo option list \<Rightarrow> nat" where
  "count_loop success_count [] = success_count"
| "count_loop success_count (result # results) =
     count_loop (if truthy result then success_count + 1 else success_count) results"

definition count_successes :: "repo option list \<Rightarrow> nat" where
  "count_successes results = count_loop 0 results"

text \<open>
  The report: the file is the list of the strings passed to \<open>f.write\<close>, in order.
  Code point 10 is the newline, 233 is e with acute accent, 9733 is the black star.
\<close>

definition repo_line :: "repo \<Rightarrow> pystr" where
  "repo_line r =
     py ''['' @ str_int (stars r) @ [9733] @ py ''] '' @ full_name r @ py '' -> ''
       @ clone_url r @ [10]"

fun write_repos :: "pystr list \<Rightarrow> repo list \<Rightarrow> pystr list" where
  "write_repos f [] = f"
| "write_repos f (r # repos) = write_repos (f @ [repo_line r]) repos"

definition write_report :: "pystr \<Rightarrow> pystr \<Rightarrow> int \<Rightarrow> nat \<Rightarrow> repo list \<Rightarrow> pystr list" where
  "write_report timestamp user_query user_limit success_count repos =
     write_repos
       [py ''Rapport g'' @ [233] @ py ''n'' @ [233] @ py ''r'' @ [233] @ py '' le '' @ timestamp @ [10],
        py ''Recherche : '' @ user_query @ [10],
        py ''Projets demand'' @ [233] @ py ''s : '' @ str_int user_limit @ [10],
        py ''Projets t'' @ [233] @ py ''l'' @ [233] @ py ''charg'' @ [233] @ py ''s : ''
          @ str_int (int success_count) @ [10],
        replicate 30 hyphen @ [10]]
       repos"

text \<open>
  \<open>main\<close> from the search to the report, for the results that the pool delivers:
  with no repository found the program exits before any report (\<open>None\<close>), otherwise the
  report is written once, after the loop over the futures.
\<close>

definition main_report ::
  "(request \<Rightarrow> response) \<Rightarrow> pystr \<Rightarrow> pystr \<Rightarrow> int \<Rightarrow> pystr \<Rightarrow> repo option list
     \<Rightarrow> pystr list option" where
  "main_report api timestamp user_query user_limit user_token results =
     (let repos = search_github api user_query user_limit user_token in
      if repos = [] then None
      else Some (write_report timestamp user_query user_limit (count_successes results) repos))"

section \<open>Example services\<close>

text \<open>Concrete descriptors and services, used to run the definitions.\<close>

definition example_repo :: "string \<Rightarrow> string \<Rightarrow> int \<Rightarrow> repo" where
  "example_repo o_login n s =
     \<lparr>name = py n, full_name = py o_login @ py ''/'' @ py n,
      clone_url = py ''https://github.com/'' @ py o_login @ py ''/'' @ py n @ py ''.git'',
      stars = s, owner = py o_login\<rparr>"

definition api_script :: "response list \<Rightarrow> request \<Rightarrow> response" where
  "api_script answers req =
     (if 1 \<le> param_page req \<and> param_page req \<le> length answers
      then answers ! (param_page req - 1) else Reply 200 [])"

definition api_endless :: "request \<Rightarrow> response" where
  "api_endless req = Reply 200 [Item (example_repo ''alice'' ''repo'' 7)]"

definition five_items :: "raw_item list" where
  "five_items = map Item
     [example_repo ''a'' ''r1'' 40, example_repo ''b'' ''r2'' 50, example_repo ''c'' ''r3'' 30,
      example_repo ''d'' ''r4'' 20, example_repo ''e'' ''r5'' 10]"

definition api_401 :: "request \<Rightarrow> response" where
  "api_401 = api_script [Reply 200 [Item (example_repo ''alice'' ''repo'' 7)], Reply 401 []]"

definition api_repeat :: "request \<Rightarrow> response" where
  "api_repeat = api_script [Reply 200 [Item (example_repo ''alice'' ''repo'' 7)],
     Reply 200 [Item (example_repo ''alice'' ''repo'' 7)]]"

definition api_malformed :: "request \<Rightarrow> response" where
  "api_malformed = api_script [Reply 200 [Item (example_repo ''alice'' ''repo'' 7), Malformed,
     Item (example_repo ''bob'' ''tool'' 3)]]"

text \<open>
  Hosts: one on which every clone completes, one on which every clone times out and
  leaves a partial destination behind, and the latter with an \<open>rmtree\<close> that fails.
\<close>

definition host_ok :: host where
  "host_ok = \<lparr>git = (\<lambda>c. Completed True), rmtree_fails = (\<lambda>p. False)\<rparr>"

definition host_timeout :: host where
  "host_timeout =
     \<lparr>git = (\<lambda>c. Failed Timeout_Expired (Some [[py ''.git'']])), rmtree_fails = (\<lambda>p. False)\<rparr>"


definition empty_world :: world where
  "empty_world = \<lparr>fs = {}, calls = []\<rparr>"

section \<open>Properties of the sanitization\<close>

lemma re_sub_class_single:
  "re_sub_class m [r] s = map (\<lambda>c. if m c then r else c) s"
  by (induction s) simp_all

lemma negated_class_filename:
  "negated_class U [Word, Lit hyphen, Lit underscore] c =
     (\<not> (alnum U c \<or> c = underscore \<or> c = hyphen))"
  by (auto simp: negated_class_def)

text \<open>
  C9. For every input string, \<open>clean_filename\<close> replaces every code point outside the
  set of the alphanumeric code points, the underscore and the hyphen by an underscore,
  and leaves every code point of that set as it is (so the length is kept, position by
  position).
\<close>

theorem clean_filename_pointwise:
  "clean_filename U s =
     map (\<lambda>c. if alnum U c \<or> c = underscore \<or> c = hyphen then c else underscore) s"
proof -
  have "py ''_'' = [underscore]"
    by (simp add: py_def underscore_def)
  then show ?thesis
    by (simp add: clean_filename_def re_sub_class_single negated_class_filename cong: if_cong)
qed

theorem clean_filename_pointwise_witness:
  "clean_filename (\<lambda>c. c = 233) (py ''my repo/v1.0-b'' @ [233, 9733]) =
     py ''my_repo_v1_0-b'' @ [233, underscore]"
  using clean_filename_pointwise [of "\<lambda>c. c = 233" "py ''my repo/v1.0-b'' @ [233, 9733]"]
  by (simp add: py_def alnum_def ascii_alnum_def underscore_def hyphen_def)

section \<open>Properties of the search loop\<close>

lemma continuesE:
  assumes "continues api query limit token found p"
  obtains items found' where
    "int (length found) < limit" "p < 10"
    "api (build_request query token p) = Reply 200 items" "items \<noteq> []"
    "append_items limit found items = (found', False)"
proof -
  from assms obtain items where items:
    "int (length found) < limit" "p < 10"
    "api (build_request query token p) = Reply 200 items" "items \<noteq> []"
    "\<not> snd (append_items limit found items)"
    by (auto simp: continues_def split: response.splits)
  then have "append_items limit found items = (fst (append_items limit found items), False)"
    by (cases "append_items limit found items") simp
  with items(1-4) show ?thesis by (rule that)
qed

lemma search_loop_step:
  assumes "int (length found) < limit" "p < 10"
    "api (build_request query token p) = Reply 200 items" "items \<noteq> []"
    "append_items limit found items = (found', False)"
  shows "search_loop api query limit token found p =
     (case search_loop api query limit token found' (Suc p) of
        (how, acc, sent) \<Rightarrow> (how, acc, build_request query token p # sent))"
  using assms by (subst search_loop.simps) (simp add: Let_def)

lemma search_loop_stop:
  assumes "\<not> continues api query limit token found p"
  shows "\<exists>how acc. search_loop api query limit token found p = (how, acc, [])
           \<or> search_loop api query limit token found p = (how, acc, [build_request query token p])"
  using assms
  by (subst (1 2) search_loop.simps)
     (auto simp: continues_def Let_def split: response.splits prod.splits bool.splits)

lemma search_loop_induct [case_names stop step]:
  assumes stop: "\<And>found p. \<not> continues api query limit token found p \<Longrightarrow> P found p"
    and step: "\<And>found p items found'.
      \<lbrakk>int (length found) < limit; p < 10;
       api (build_request query token p) = Reply 200 items; items \<noteq> [];
       append_items limit found items = (found', False); P found' (Suc p)\<rbrakk> \<Longrightarrow> P found p"
  shows "P found p"
proof (induction "10 - p" arbitrary: found p)
  case 0
  then have "\<not> continues api query limit token found p"
    by (simp add: continues_def)
  then show ?case by (rule stop)
next
  case (Suc n)
  show ?case
  proof (cases "continues api query limit token found p")
    case False
    then show ?thesis by (rule stop)
  next
    case True
    then obtain items found' where *:
      "int (length found) < limit" "p < 10"
      "api (build_request query token p) = Reply 200 items" "items \<noteq> []"
      "append_items limit found items = (found', False)"
      by (rule continuesE)
    from Suc.hyps(2) have "n = 10 - Suc p" by simp
    then have "P found' (Suc p)" by (rule Suc.hyps(1))
    with * show ?thesis by (rule step)
  qed
qed

lemma search_loop_step_exit:
  assumes "int (length found) < limit" "p < 10"
    "api (build_request query token p) = Reply 200 items" "items \<noteq> []"
    "append_items limit found items = (found', False)"
  shows "fst (search_loop api query limit token found p) =
     fst (search_loop api query limit token found' (Suc p))"
  by (simp add: search_loop_step [where api = api, OF assms] split: prod.splits)

lemma search_loop_step_found:
  assumes "int (length found) < limit" "p < 10"
    "api (build_request query token p) = Reply 200 items" "items \<noteq> []"
    "append_items limit found items = (found', False)"
  shows "fst (snd (search_loop api query limit token found p)) =
     fst (snd (search_loop api query limit token found' (Suc p)))"
  by (simp add: search_loop_step [where api = api, OF assms] split: prod.splits)

lemma search_loop_step_sent:
  assumes "int (length found) < limit" "p < 10"
    "api (build_request query token p) = Reply 200 items" "items \<noteq> []"
    "append_items limit found items = (found', False)"
  shows "snd (snd (search_loop api query limit token found p)) =
     build_request query token p # snd (snd (search_loop api query limit token found' (Suc p)))"
  by (simp add: search_loop_step [where api = api, OF assms] split: prod.splits)

lemma search_loop_sent_length:
  "length (snd (snd (search_loop api query limit token found p))) \<le> max 1 (11 - p)"
proof (induction found p rule: search_loop_induct [of api query limit token])
  case (stop found p)
  from search_loop_stop [OF this] show ?case by auto
next
  case (step found p items found')
  have "snd (snd (search_loop api query limit token found p)) =
     build_request query token p # snd (snd (search_loop api query limit token found' (Suc p)))"
    using step.hyps by (rule search_loop_step_sent [where api = api])
  with step.IH \<open>p < 10\<close> show ?case by simp
qed

lemma upt_shift: "[p ..< p + Suc n] = p # [Suc p ..< Suc p + n]"
  using upt_conv_Cons [of p "p + Suc n"] by (simp del: upt_Suc)

lemma search_loop_sent_pages:
  "\<exists>n. snd (snd (search_loop api query limit token found p)) =
     map (build_request query token) [p ..< p + n]"
proof (induction found p rule: search_loop_induct [of api query limit token])
  case (stop found p)
  from search_loop_stop [OF this] show ?case
  proof (elim exE disjE)
    fix how acc
    assume "search_loop api query limit token found p = (how, acc, [])"
    then have "snd (snd (search_loop api query limit token found p)) =
      map (build_request query token) [p ..< p + 0]" by simp
    then show ?thesis by blast
  next
    fix how acc
    assume "search_loop api query limit token found p = (how, acc, [build_request query token p])"
    then have "snd (snd (search_loop api query limit token found p)) =
      map (build_request query token) [p ..< p + 1]" by simp
    then show ?thesis by blast
  qed
next
  case (step found p items found')
  from step.IH obtain n where
    n: "snd (snd (search_loop api query limit token found' (Suc p))) =
      map (build_request query token) [Suc p ..< Suc p + n]" ..
  have "snd (snd (search_loop api query limit token found p)) =
     build_request query token p # snd (snd (search_loop api query limit token found' (Suc p)))"
    using step.hyps by (rule search_loop_step_sent [where api = api])
  also have "\<dots> = map (build_request query token) [p ..< p + Suc n]"
    unfolding n upt_shift by simp
  finally show ?case by blast
qed


lemma search_loop_limit_reached:
  "\<not> int (length found) < limit \<Longrightarrow>
     search_loop api query limit token found p = (Limit_Reached, found, [])"
  by (subst search_loop.simps) simp

lemma search_loop_401:
  "int (length found) < limit \<Longrightarrow> api (build_request query token p) = Reply 401 items \<Longrightarrow>
     search_loop api query limit token found p = (Return_401, found, [build_request query token p])"
  by (subst search_loop.simps) (simp add: Let_def)

lemma search_loop_401_last:
  assumes "r \<in> set (snd (snd (search_loop api query limit token found p)))"
    and "api r = Reply 401 items"
  shows "fst (search_loop api query limit token found p) = Return_401
     \<and> last (snd (snd (search_loop api query limit token found p))) = r"
  using assms
proof (induction found p rule: search_loop_induct [of api query limit token])
  case (stop found p)
  show ?case
  proof (cases "int (length found) < limit")
    case False
    with stop.prems show ?thesis by (simp add: search_loop_limit_reached)
  next
    case True
    from search_loop_stop [OF stop.hyps] stop.prems(1)
    have "r = build_request query token p" by auto
    with stop.prems(2) True show ?thesis by (simp add: search_loop_401)
  qed
next
  case (step found p items' found')
  let ?rest = "snd (snd (search_loop api query limit token found' (Suc p)))"
  have sent: "snd (snd (search_loop api query limit token found p)) =
     build_request query token p # ?rest"
    using step.hyps by (rule search_loop_step_sent [where api = api])
  have how: "fst (search_loop api query limit token found p) =
     fst (search_loop api query limit token found' (Suc p))"
    using step.hyps by (rule search_loop_step_exit [where api = api])
  from step.prems(2) step.hyps(3) have "r \<noteq> build_request query token p" by auto
  with step.prems(1) have in_rest: "r \<in> set ?rest" unfolding sent by simp
  then have "?rest \<noteq> []" by auto
  with step.IH [OF in_rest step.prems(2)] show ?case unfolding sent how by simp
qed

lemma append_items_take:
  assumes "int (length found) < limit" and "append_items limit found items = (found', False)"
  shows "\<exists>ys. take (nat limit - length found) items = map Item ys \<and> found' = found @ ys
     \<and> (int (length found') < limit \<longrightarrow> items = map Item ys)"
  using assms
proof (induction items arbitrary: found)
  case Nil
  then show ?case by simp
next
  case (Cons x items)
  show ?case
  proof (cases x)
    case Malformed
    with Cons.prems show ?thesis by simp
  next
    case (Item r)
    show ?thesis
    proof (cases "int (length (found @ [r])) \<ge> limit")
      case True
      with Cons.prems Item have "found' = found @ [r]" by simp
      moreover from True Cons.prems(1) have "nat limit - length found = Suc 0" by simp
      ultimately show ?thesis using True Item by simp
    next
      case False
      with Cons.prems Item have "append_items limit (found @ [r]) items = (found', False)"
        by simp
      with False Cons.IH [of "found @ [r]"] obtain ys where
        ys: "take (nat limit - length (found @ [r])) items = map Item ys"
          "found' = (found @ [r]) @ ys" "int (length found') < limit \<longrightarrow> items = map Item ys"
        by auto
      from False have "nat limit - length found = Suc (nat limit - length (found @ [r]))"
        by simp
      with ys Item have "take (nat limit - length found) (x # items) = map Item (r # ys)
        \<and> found' = found @ (r # ys) \<and> (int (length found') < limit \<longrightarrow> x # items = map Item (r # ys))"
        by simp
      then show ?thesis by (rule exI [of _ "r # ys"])
    qed
  qed
qed


lemma search_loop_stop_cases:
  assumes "\<not> continues api query limit token found p"
  obtains
    (limit) "\<not> int (length found) < limit"
      "search_loop api query limit token found p = (Limit_Reached, found, [])"
  | (no_items) how where "int (length found) < limit"
      "page_items (api (build_request query token p)) = []"
      "search_loop api query limit token found p = (how, found, [build_request query token p])"
  | (bad_item) found' where "int (length found) < limit"
      "search_loop api query limit token found p =
         (Break_Exception In_Item, found', [build_request query token p])"
  | (ceiling) items found' where "int (length found) < limit"
      "api (build_request query token p) = Reply 200 items"
      "append_items limit found items = (found', False)"
      "search_loop api query limit token found p =
         (Break_Page_Ceiling, found', [build_request query token p])"
proof (cases "int (length found) < limit")
  case False
  then show ?thesis by (intro limit search_loop_limit_reached)
next
  case less: True
  show ?thesis
  proof (cases "api (build_request query token p)")
    case Raises
    with less have "search_loop api query limit token found p =
      (Break_Exception In_Request, found, [build_request query token p])"
      by (subst search_loop.simps) (simp add: Let_def)
    with less Raises show ?thesis by (intro no_items) simp_all
  next
    case (Reply status items)
    show ?thesis
    proof (cases "status = 200 \<and> items \<noteq> []")
      case False
      with less Reply have "\<exists>how. search_loop api query limit token found p =
        (how, found, [build_request query token p])"
        by (subst search_loop.simps) (simp add: Let_def)
      then obtain how where "search_loop api query limit token found p =
        (how, found, [build_request query token p])" ..
      moreover from False Reply have "page_items (api (build_request query token p)) = []"
        by auto
      ultimately show ?thesis using less by (intro no_items)
    next
      case ok: True
      obtain found' flag where app: "append_items limit found items = (found', flag)"
        by (cases "append_items limit found items")
      show ?thesis
      proof (cases flag)
        case True
        with less Reply ok app have "search_loop api query limit token found p =
          (Break_Exception In_Item, found', [build_request query token p])"
          by (subst search_loop.simps) (simp add: Let_def)
        with less show ?thesis by (intro bad_item)
      next
        case False
        with assms less Reply ok app have "\<not> p < 10"
          by (simp add: continues_def)
        with less Reply ok app False have "search_loop api query limit token found p =
          (Break_Page_Ceiling, found', [build_request query token p])"
          by (subst search_loop.simps) (simp add: Let_def)
        with less Reply ok app False show ?thesis by (intro ceiling) simp_all
      qed
    qed
  qed
qed

lemma search_loop_accumulates:
  assumes "fst (search_loop api query limit token found p) \<noteq> Break_Exception In_Item"
  shows "\<exists>ys. take (nat limit - length found)
        (items_of api (snd (snd (search_loop api query limit token found p)))) = map Item ys
     \<and> fst (snd (search_loop api query limit token found p)) = found @ ys"
  using assms
proof (induction found p rule: search_loop_induct [of api query limit token])
  case (stop found p)
  from stop.hyps show ?case
  proof (cases rule: search_loop_stop_cases)
    case limit
    then show ?thesis by (simp add: items_of_def)
  next
    case (no_items how)
    then show ?thesis by (simp add: items_of_def)
  next
    case (bad_item found')
    with stop.prems show ?thesis by simp
  next
    case (ceiling items found')
    from append_items_take [OF ceiling(1) ceiling(3)] ceiling(2,4)
    show ?thesis by (auto simp: items_of_def)
  qed
next
  case (step found p items found')
  let ?rest = "snd (snd (search_loop api query limit token found' (Suc p)))"
  have sent: "snd (snd (search_loop api query limit token found p)) =
     build_request query token p # ?rest"
    using step.hyps by (rule search_loop_step_sent [where api = api])
  have how: "fst (search_loop api query limit token found p) =
     fst (search_loop api query limit token found' (Suc p))"
    using step.hyps by (rule search_loop_step_exit [where api = api])
  have acc: "fst (snd (search_loop api query limit token found p)) =
     fst (snd (search_loop api query limit token found' (Suc p)))"
    using step.hyps by (rule search_loop_step_found [where api = api])
  from step.prems how obtain zs where zs:
    "take (nat limit - length found') (items_of api ?rest) = map Item zs"
    "fst (snd (search_loop api query limit token found' (Suc p))) = found' @ zs"
    using step.IH by auto
  from append_items_take [OF step.hyps(1) step.hyps(5)] obtain ys where ys:
    "take (nat limit - length found) items = map Item ys" "found' = found @ ys"
    "int (length found') < limit \<longrightarrow> items = map Item ys"
    by blast
  have items: "items_of api (build_request query token p # ?rest) = items @ items_of api ?rest"
    using step.hyps(3) by (simp add: items_of_def)
  have "take (nat limit - length found) (items @ items_of api ?rest) = map Item (ys @ zs)"
  proof (cases "int (length found') < limit")
    case True
    with ys have "items = map Item ys" by simp
    then have "length items = length ys" by simp
    with ys(2) have "nat limit - length found - length items = nat limit - length found'"
      by simp
    with zs(1) ys(1) show ?thesis by simp
  next
    case False
    with zs(1) have "zs = []" by simp
    from ys(1) have "length ys = min (length items) (nat limit - length found)"
      by (metis length_map length_take)
    with False ys(2) have "nat limit - length found \<le> length items" by simp
    with ys(1) \<open>zs = []\<close> show ?thesis by simp
  qed
  with zs(2) ys(2) show ?case unfolding sent acc items by auto
qed

section \<open>Properties of the search\<close>

lemma run_five:
  "search_run (api_script [Reply 200 five_items]) (py ''X'') 3 [] =
     (Limit_Reached,
      [example_repo ''a'' ''r1'' 40, example_repo ''b'' ''r2'' 50, example_repo ''c'' ''r3'' 30],
      [build_request (py ''X'') [] 1])"
  by (simp add: search_run_def search_loop.simps api_script_def five_items_def build_request_def)

lemma github_five:
  "search_github (api_script [Reply 200 five_items]) (py ''X'') 3 [] =
      [example_repo ''b'' ''r2'' 50, example_repo ''a'' ''r1'' 40, example_repo ''c'' ''r3'' 30]"
  by (simp add: search_github_def run_five py_sort_def slice_to_def example_repo_def)

lemma run_endless:
  "search_requests api_endless (py ''X'') 1000 [] = map (build_request (py ''X'') []) [1 ..< 11]"
  by (simp add: search_requests_def search_run_def search_loop.simps api_endless_def build_request_def upt_rec)

lemma descriptors_map_Item: "descriptors (map Item ys) = ys"
  by (induction ys) simp_all

lemma sorted_py_sort_reverse: "sorted_wrt (\<ge>) (map key (py_sort key True xs))"
proof -
  have "sorted (map key (sort_key key (rev xs)))" by simp
  then have "sorted_wrt (\<ge>) (rev (map key (sort_key key (rev xs))))"
    by (simp add: sorted_wrt_rev)
  then show ?thesis by (simp add: py_sort_def rev_map)
qed

lemma mset_py_sort: "mset (py_sort key reverse xs) = mset xs"
  by (simp add: py_sort_def)

lemma sorted_search_github:
  "sorted_wrt (\<ge>) (map stars (search_github api query limit token))"
proof -
  have cut: "sorted_wrt (\<ge>) (map stars (slice_to limit (py_sort stars True xs)))"
    for xs :: "repo list"
    using sorted_py_sort_reverse [of stars xs]
    by (simp add: slice_to_def take_map [symmetric])
  show ?thesis
    by (simp add: search_github_def cut split: prod.splits loop_exit.splits)
qed

lemma search_github_not_401:
  "search_exit api query limit token \<noteq> Return_401 \<Longrightarrow>
     search_github api query limit token =
       slice_to limit (py_sort stars True (accumulated api query limit token))"
  by (auto simp: search_github_def search_exit_def accumulated_def
      split: prod.splits loop_exit.splits)

lemma search_github_is_401:
  "search_exit api query limit token = Return_401 \<Longrightarrow> search_github api query limit token = []"
  by (auto simp: search_github_def search_exit_def split: prod.splits)

lemma accumulated_take:
  assumes "search_exit api query limit token \<noteq> Break_Exception In_Item"
  shows "map Item (accumulated api query limit token) =
     take (nat limit) (fetched_items api query limit token)"
  using search_loop_accumulates [of api query limit token "[]" 1] assms
  by (auto simp: search_exit_def search_run_def accumulated_def fetched_items_def
      search_requests_def)

text \<open>
  C1, as amended. When the loop is left neither by the return on a 401 nor by an
  exception raised while an item is read, \<open>search_github\<close> returns exactly
  \<open>min N limit\<close> descriptors, \<open>N\<close> being the number of items on the fetched pages
  (none for a limit that is not positive), sorted by stars, largest first. They are,
  up to the order, the first \<open>min N limit\<close> items fetched: nothing is removed, so the
  result is free of repeated \<open>full_name\<close>s exactly when those items are.
\<close>

theorem search_github_result:
  assumes "search_exit api query limit token \<noteq> Return_401"
    and "search_exit api query limit token \<noteq> Break_Exception In_Item"
  shows "length (search_github api query limit token) =
       min (length (fetched_items api query limit token)) (nat limit)
     \<and> sorted_wrt (\<ge>) (map stars (search_github api query limit token))
     \<and> mset (search_github api query limit token) =
         mset (descriptors (take (nat limit) (fetched_items api query limit token)))
     \<and> distinct (map full_name (search_github api query limit token)) =
         distinct (map full_name
           (descriptors (take (nat limit) (fetched_items api query limit token))))"
proof -
  let ?acc = "accumulated api query limit token"
  let ?got = "take (nat limit) (fetched_items api query limit token)"
  have items: "map Item ?acc = ?got"
    using assms(2) by (rule accumulated_take)
  then have acc: "descriptors ?got = ?acc"
    by (metis descriptors_map_Item)
  from items have "length ?acc = length ?got"
    by (metis length_map)
  then have len: "length ?acc = min (length (fetched_items api query limit token)) (nat limit)"
    by simp
  then have "slice_to limit (py_sort stars True ?acc) = py_sort stars True ?acc"
    by (cases "limit < 0") (simp_all add: slice_to_def py_sort_def)
  with assms(1) have res: "search_github api query limit token = py_sort stars True ?acc"
    by (simp add: search_github_not_401)
  have m: "mset (search_github api query limit token) = mset (descriptors ?got)"
    unfolding res acc by (rule mset_py_sort)
  then have "mset (map full_name (search_github api query limit token)) =
      mset (map full_name (descriptors ?got))"
    by simp
  then have "distinct (map full_name (search_github api query limit token)) =
      distinct (map full_name (descriptors ?got))"
    by (rule mset_eq_imp_distinct_iff)
  moreover have "length (search_github api query limit token) =
      min (length (fetched_items api query limit token)) (nat limit)"
    unfolding res using len by (simp add: py_sort_def)
  ultimately show ?thesis using m sorted_search_github by blast
qed

lemma fetched_five:
  "fetched_items (api_script [Reply 200 five_items]) (py ''X'') 3 [] = five_items"
  by (simp add: fetched_items_def search_requests_def run_five items_of_def api_script_def
      build_request_def)

theorem search_github_result_witness:
  "search_exit (api_script [Reply 200 five_items]) (py ''X'') 3 [] \<noteq> Return_401
   \<and> search_exit (api_script [Reply 200 five_items]) (py ''X'') 3 [] \<noteq> Break_Exception In_Item
   \<and> length (fetched_items (api_script [Reply 200 five_items]) (py ''X'') 3 []) = 5
   \<and> search_github (api_script [Reply 200 five_items]) (py ''X'') 3 [] =
       [example_repo ''b'' ''r2'' 50, example_repo ''a'' ''r1'' 40, example_repo ''c'' ''r3'' 30]
   \<and> length (search_github (api_script [Reply 200 five_items]) (py ''X'') 3 []) =
       min (length (fetched_items (api_script [Reply 200 five_items]) (py ''X'') 3 [])) (nat 3)
   \<and> sorted_wrt (\<ge>) (map stars (search_github (api_script [Reply 200 five_items]) (py ''X'') 3 []))
   \<and> distinct (map full_name (search_github (api_script [Reply 200 five_items]) (py ''X'') 3 []))"
proof -
  let ?api = "api_script [Reply 200 five_items]"
  have h1: "search_exit ?api (py ''X'') 3 [] \<noteq> Return_401"
    by (simp add: search_exit_def run_five)
  have h2: "search_exit ?api (py ''X'') 3 [] \<noteq> Break_Exception In_Item"
    by (simp add: search_exit_def run_five)
  have d: "distinct (map full_name (descriptors (take (nat 3) five_items)))"
    by (simp add: five_items_def example_repo_def py_def)
  have n: "length five_items = 5"
    by (simp add: five_items_def)
  from search_github_result [OF h1 h2] h1 h2 d n show ?thesis
    by (simp add: fetched_five github_five)
qed

text \<open>
  The claim C1 as stated fails: a service that lists the same repository on two pages
  gets it back twice; after a 401 on the second page nothing is returned although the
  first page carried an item; and an item that lacks a key ends the loop with fewer
  descriptors than items fetched.
\<close>

theorem search_github_claim_counterexample:
  "\<not> distinct (map full_name (search_github api_repeat (py ''X'') 2 []))
   \<and> length (search_github api_401 (py ''X'') 2 []) \<noteq>
       min (length (fetched_items api_401 (py ''X'') 2 [])) (nat 2)
   \<and> length (search_github api_malformed (py ''X'') 3 []) \<noteq>
       min (length (fetched_items api_malformed (py ''X'') 3 [])) (nat 3)"
proof -
  have "search_run api_repeat (py ''X'') 2 [] =
     (Limit_Reached, [example_repo ''alice'' ''repo'' 7, example_repo ''alice'' ''repo'' 7],
      [build_request (py ''X'') [] 1, build_request (py ''X'') [] 2])"
    by (simp add: search_run_def search_loop.simps api_repeat_def api_script_def build_request_def)
  then have "search_github api_repeat (py ''X'') 2 [] =
     [example_repo ''alice'' ''repo'' 7, example_repo ''alice'' ''repo'' 7]"
    by (simp add: search_github_def py_sort_def slice_to_def)
  moreover have "search_run api_401 (py ''X'') 2 [] =
     (Return_401, [example_repo ''alice'' ''repo'' 7],
      [build_request (py ''X'') [] 1, build_request (py ''X'') [] 2])"
    by (simp add: search_run_def search_loop.simps api_401_def api_script_def build_request_def)
  then have "search_github api_401 (py ''X'') 2 [] = []
      \<and> length (fetched_items api_401 (py ''X'') 2 []) = 1"
    by (simp add: search_github_def fetched_items_def search_requests_def items_of_def
        api_401_def api_script_def build_request_def)
  moreover have "search_run api_malformed (py ''X'') 3 [] =
     (Break_Exception In_Item, [example_repo ''alice'' ''repo'' 7],
      [build_request (py ''X'') [] 1])"
    by (simp add: search_run_def search_loop.simps api_malformed_def api_script_def
        build_request_def)
  then have "search_github api_malformed (py ''X'') 3 [] = [example_repo ''alice'' ''repo'' 7]
      \<and> length (fetched_items api_malformed (py ''X'') 3 []) = 3"
    by (simp add: search_github_def fetched_items_def search_requests_def items_of_def
        api_malformed_def api_script_def build_request_def py_sort_def slice_to_def)
  ultimately show ?thesis by simp
qed

text \<open>
  C2, as amended. When a page request is answered 401, that request is the last one
  issued and \<open>search_github\<close> returns the empty list: the descriptors accumulated from
  the earlier pages are dropped.
\<close>

theorem search_github_401_returns_nothing:
  assumes "r \<in> set (search_requests api query limit token)"
    and "api r = Reply 401 items"
  shows "search_github api query limit token = []
     \<and> last (search_requests api query limit token) = r"
proof -
  from assms have "search_exit api query limit token = Return_401
      \<and> last (search_requests api query limit token) = r"
    unfolding search_exit_def search_requests_def search_run_def
    by (rule search_loop_401_last)
  then show ?thesis by (simp add: search_github_is_401)
qed

lemma run_api_401:
  "search_run api_401 (py ''X'') 2 [] =
     (Return_401, [example_repo ''alice'' ''repo'' 7],
      [build_request (py ''X'') [] 1, build_request (py ''X'') [] 2])"
  by (simp add: search_run_def search_loop.simps api_401_def api_script_def build_request_def)

theorem search_github_401_returns_nothing_witness:
  "build_request (py ''X'') [] 2 \<in> set (search_requests api_401 (py ''X'') 2 [])
   \<and> api_401 (build_request (py ''X'') [] 2) = Reply 401 []
   \<and> search_github api_401 (py ''X'') 2 [] = []
   \<and> last (search_requests api_401 (py ''X'') 2 []) = build_request (py ''X'') [] 2"
proof -
  have h1: "build_request (py ''X'') [] 2 \<in> set (search_requests api_401 (py ''X'') 2 [])"
    by (simp add: search_requests_def run_api_401)
  have h2: "api_401 (build_request (py ''X'') [] 2) = Reply 401 []"
    by (simp add: api_401_def api_script_def build_request_def)
  from search_github_401_returns_nothing [OF h1 h2] h1 h2 show ?thesis by simp
qed

text \<open>
  The claim C2 as stated fails: with one item on page 1 and a 401 on page 2, the list
  accumulated when the 401 arrives holds the item, and the result does not.
\<close>

theorem search_github_401_keeps_counterexample:
  "api_401 (build_request (py ''X'') [] 2) = Reply 401 []
   \<and> search_requests api_401 (py ''X'') 2 [] =
       [build_request (py ''X'') [] 1, build_request (py ''X'') [] 2]
   \<and> accumulated api_401 (py ''X'') 2 [] = [example_repo ''alice'' ''repo'' 7]
   \<and> search_github api_401 (py ''X'') 2 [] \<noteq> accumulated api_401 (py ''X'') 2 []"
  by (simp add: search_requests_def accumulated_def search_github_def run_api_401)
     (simp add: api_401_def api_script_def build_request_def)

text \<open>
  C5. For every service, query, limit and token, \<open>search_github\<close> issues at most 10
  page requests; they ask for the pages 1, 2, ... in this order.
\<close>

theorem search_requests_at_most_ten:
  "length (search_requests api query limit token) \<le> 10
   \<and> search_requests api query limit token =
       map (build_request query token) [1 ..< Suc (length (search_requests api query limit token))]"
proof -
  from search_loop_sent_pages [of api query limit token "[]" 1] obtain n where
    n: "search_requests api query limit token = map (build_request query token) [1 ..< 1 + n]"
    unfolding search_requests_def search_run_def ..
  then have "length (search_requests api query limit token) = n"
    by (metis add_diff_cancel_left' length_map length_upt)
  with n have "search_requests api query limit token =
       map (build_request query token) [1 ..< Suc (length (search_requests api query limit token))]"
    by (metis plus_1_eq_Suc)
  moreover have "length (search_requests api query limit token) \<le> 10"
    using search_loop_sent_length [of api query limit token "[]" 1]
    by (simp add: search_requests_def search_run_def)
  ultimately show ?thesis by (rule conjI [rotated])
qed

theorem search_requests_at_most_ten_witness:
  "length (search_requests api_endless (py ''X'') 1000 []) = 10
   \<and> search_requests api_endless (py ''X'') 1000 [] = map (build_request (py ''X'') []) [1 ..< 11]"
  using search_requests_at_most_ten [of api_endless "py ''X''" 1000 "[]"]
  by (simp add: run_endless)

section \<open>Properties of the clone task\<close>

lemma target_alice: "target_path (\<lambda>c. False) (example_repo ''alice'' ''repo'' 7) = [py ''repo_alice'']"
  by (simp add: target_path_def folder_name_def clean_filename_def negated_class_def
      example_repo_def py_def alnum_def ascii_alnum_def underscore_def hyphen_def)

text \<open>
  C3. For every descriptor whose target directory exists when \<open>clone_single_repo\<close>
  starts, the function returns \<open>None\<close> (its value for a skipped descriptor) at once:
  the world is unchanged, so no subprocess is started and nothing is written.
\<close>

theorem clone_existing_is_skipped:
  "path_exists w (target_path U repo_info) \<Longrightarrow>
     clone_single_repo U h repo_info token w = (None, w)"
  by (simp add: clone_single_repo_def)

theorem clone_existing_is_skipped_witness:
  "path_exists \<lparr>fs = {[py ''repo_alice'']}, calls = []\<rparr>
      (target_path (\<lambda>c. False) (example_repo ''alice'' ''repo'' 7))
   \<and> clone_single_repo (\<lambda>c. False) host_ok (example_repo ''alice'' ''repo'' 7) (py ''tok'')
        \<lparr>fs = {[py ''repo_alice'']}, calls = []\<rparr> =
      (None, \<lparr>fs = {[py ''repo_alice'']}, calls = []\<rparr>)"
proof -
  have h: "path_exists \<lparr>fs = {[py ''repo_alice'']}, calls = []\<rparr>
      (target_path (\<lambda>c. False) (example_repo ''alice'' ''repo'' 7))"
    by (simp add: path_exists_def target_alice)
  from clone_existing_is_skipped [OF h] h show ?thesis by simp
qed

lemma startswith_self_append: "startswith (p @ x) p"
  by (simp add: startswith_def)

lemma startswith_refl: "startswith p p"
  by (simp add: startswith_def)


lemma call_alice:
  "clone_call (\<lambda>c. False) (example_repo ''alice'' ''repo'' 7) [] =
     \<lparr>depth = 1, url = py ''https://github.com/alice/repo.git'', dest = [py ''repo_alice''],
      timeout = 180, check = True, git_terminal_prompt = py ''0''\<rparr>"
  by (simp add: clone_call_def target_alice auth_url_def) (simp add: example_repo_def py_def)



lemma replace_first_prefix:
  assumes "old \<noteq> []" and "startswith s old"
  shows "py_replace s old new 1 = new @ drop (length old) s"
proof -
  from assms have "s \<noteq> []" by (auto simp: startswith_def)
  with assms have "replace_nonempty old new 1 s =
      new @ replace_nonempty old new 0 (drop (length old) s)"
    by (subst replace_nonempty.simps) simp
  also have "replace_nonempty old new 0 (drop (length old) s) = drop (length old) s"
    by (subst replace_nonempty.simps) simp
  finally show ?thesis using assms(1) by (simp add: py_replace_def)
qed

lemma startswith_github:
  assumes "startswith u (py ''https://github.com/'')"
  shows "startswith u (py ''https://'')"
    and "drop 8 u = py ''github.com/'' @ drop 19 u"
proof -
  have "length (py ''https://github.com/'') = 19"
    by (simp add: py_def)
  with assms have "take 19 u = py ''https://github.com/''"
    by (simp add: startswith_def)
  then have u: "u = py ''https://github.com/'' @ drop 19 u"
    by (metis append_take_drop_id)
  show "startswith u (py ''https://'')"
    by (subst u) (simp add: startswith_def py_def)
  show "drop 8 u = py ''github.com/'' @ drop 19 u"
    by (subst u) (simp add: py_def)
qed

lemma auth_url_explicit:
  "auth_url repo_info token =
     (if token \<noteq> [] \<and> startswith (clone_url repo_info) (py ''https://github.com/'')
      then py ''https://'' @ token @ py ''@github.com/'' @ drop 19 (clone_url repo_info)
      else clone_url repo_info)"
proof (cases "token \<noteq> [] \<and> startswith (clone_url repo_info) (py ''https://github.com/'')")
  case False
  then show ?thesis by (auto simp: auth_url_def)
next
  case True
  then have gh: "startswith (clone_url repo_info) (py ''https://github.com/'')" by simp
  have ne: "py ''https://'' \<noteq> []" and len: "length (py ''https://'') = 8"
    by (simp_all add: py_def)
  have "py_replace (clone_url repo_info) (py ''https://'') (py ''https://'' @ token @ py ''@'') 1 =
      (py ''https://'' @ token @ py ''@'') @ drop 8 (clone_url repo_info)"
    using replace_first_prefix [OF ne startswith_github(1) [OF gh]] unfolding len .
  also have "\<dots> = py ''https://'' @ token @ py ''@github.com/'' @ drop 19 (clone_url repo_info)"
    unfolding startswith_github(2) [OF gh] by (simp add: py_def)
  finally show ?thesis using True by (simp add: auth_url_def)
qed

lemma clone_calls:
  "calls (snd (clone_single_repo U h repo_info token w)) =
     (if path_exists w (target_path U repo_info) then calls w
      else calls w @ [clone_call U repo_info token])"
  by (simp add: clone_single_repo_def subprocess_run_def rmtree_def Let_def
      split: git_result.splits)

text \<open>
  C6. A descriptor that is not skipped is cloned by exactly one call of \<open>git\<close>. With a
  token that is not empty and a clone URL that starts with \<open>https://github.com/\<close>, the
  URL of the call is \<open>https://\<close>, the token, \<open>@github.com/\<close> and the rest of the clone
  URL as it was: the token stands once, before the host. In every other case the URL
  of the call is the clone URL itself.
\<close>

theorem clone_url_credential:
  "calls (snd (clone_single_repo U h repo_info token w)) =
     (if path_exists w (target_path U repo_info) then calls w
      else calls w @ [clone_call U repo_info token])
   \<and> url (clone_call U repo_info token) =
     (if token \<noteq> [] \<and> startswith (clone_url repo_info) (py ''https://github.com/'')
      then py ''https://'' @ token @ py ''@github.com/'' @ drop 19 (clone_url repo_info)
      else clone_url repo_info)"
  using auth_url_explicit [of repo_info token] clone_calls [of U h repo_info token w]
  by (simp add: clone_call_def)

theorem clone_url_credential_witness:
  "map url (calls (snd (clone_single_repo (\<lambda>c. False) host_ok
      \<lparr>name = py ''repo'', full_name = py ''alice/repo'',
       clone_url = py ''https://github.com/alice/https://x'', stars = 7, owner = py ''alice''\<rparr>
      (py ''tok'') empty_world))) = [py ''https://tok@github.com/alice/https://x'']
   \<and> map url (calls (snd (clone_single_repo (\<lambda>c. False) host_ok
      \<lparr>name = py ''repo'', full_name = py ''alice/repo'',
       clone_url = py ''https://github.com/alice/https://x'', stars = 7, owner = py ''alice''\<rparr>
      [] empty_world))) = [py ''https://github.com/alice/https://x'']
   \<and> map url (calls (snd (clone_single_repo (\<lambda>c. False) host_ok
      \<lparr>name = py ''repo'', full_name = py ''alice/repo'',
       clone_url = py ''git://github.com/alice/repo'', stars = 7, owner = py ''alice''\<rparr>
      (py ''tok'') empty_world))) = [py ''git://github.com/alice/repo'']"
proof -
  let ?U = "\<lambda>c::nat. False"
  let ?a = "\<lparr>name = py ''repo'', full_name = py ''alice/repo'',
       clone_url = py ''https://github.com/alice/https://x'', stars = 7, owner = py ''alice''\<rparr>"
  let ?b = "\<lparr>name = py ''repo'', full_name = py ''alice/repo'',
       clone_url = py ''git://github.com/alice/repo'', stars = 7, owner = py ''alice''\<rparr>"
  have e: "\<not> path_exists empty_world p" for p
    by (simp add: path_exists_def empty_world_def)
  have c: "calls empty_world = []"
    by (simp add: empty_world_def)
  from clone_url_credential [of ?U host_ok ?a "py ''tok''" empty_world]
  have "map url (calls (snd (clone_single_repo ?U host_ok ?a (py ''tok'') empty_world))) =
      [py ''https://tok@github.com/alice/https://x'']"
    by (simp add: e c) (simp add: startswith_def py_def)
  moreover from clone_url_credential [of ?U host_ok ?a "[]" empty_world]
  have "map url (calls (snd (clone_single_repo ?U host_ok ?a [] empty_world))) =
      [py ''https://github.com/alice/https://x'']"
    by (simp add: e c)
  moreover from clone_url_credential [of ?U host_ok ?b "py ''tok''" empty_world]
  have "map url (calls (snd (clone_single_repo ?U host_ok ?b (py ''tok'') empty_world))) =
      [py ''git://github.com/alice/repo'']"
    by (simp add: e c) (simp add: startswith_def py_def)
  ultimately show ?thesis by simp
qed

lemma target_not_under_git: "\<not> startswith [d] [d, g]"
  by (simp add: startswith_def)

text \<open>
  C7, as amended. For every descriptor that is not skipped and whose clone completes,
  the directory that \<open>clone_single_repo\<close> creates in the workspace is named by the
  sanitized form of the repository name, an underscore and the owner, in this order
  (not of \<open>full_name\<close>, which is owner, slash, name): that directory exists afterwards,
  it is the destination given to \<open>git\<close>, and every path added lies at or below it.
\<close>

theorem clone_target_directory:
  assumes "\<not> path_exists w (target_path U repo_info)"
    and "git h (clone_call U repo_info token) = Completed has_git"
  shows "fst (clone_single_repo U h repo_info token w) = Some repo_info
     \<and> dest (clone_call U repo_info token) =
         [clean_filename U (name repo_info @ py ''_'' @ owner repo_info)]
     \<and> [clean_filename U (name repo_info @ py ''_'' @ owner repo_info)]
         \<in> fs (snd (clone_single_repo U h repo_info token w))
     \<and> fs (snd (clone_single_repo U h repo_info token w)) - fs w
         \<subseteq> {x. startswith x [clean_filename U (name repo_info @ py ''_'' @ owner repo_info)]}"
  using assms
  by (auto simp: clone_single_repo_def subprocess_run_def path_exists_def rmtree_def Let_def
      clone_call_def target_path_def folder_name_def target_not_under_git startswith_refl
      startswith_self_append [of "[d]" "[g]" for d g, simplified])

theorem clone_target_directory_witness:
  "\<not> path_exists empty_world (target_path (\<lambda>c. False) (example_repo ''alice'' ''repo'' 7))
   \<and> git host_ok (clone_call (\<lambda>c. False) (example_repo ''alice'' ''repo'' 7) []) = Completed True
   \<and> clean_filename (\<lambda>c. False) (name (example_repo ''alice'' ''repo'' 7) @ py ''_'' @
        owner (example_repo ''alice'' ''repo'' 7)) = py ''repo_alice''
   \<and> fst (clone_single_repo (\<lambda>c. False) host_ok (example_repo ''alice'' ''repo'' 7) [] empty_world) =
        Some (example_repo ''alice'' ''repo'' 7)
   \<and> [py ''repo_alice''] \<in>
        fs (snd (clone_single_repo (\<lambda>c. False) host_ok (example_repo ''alice'' ''repo'' 7) []
          empty_world))"
proof -
  let ?r = "example_repo ''alice'' ''repo'' 7"
  have h1: "\<not> path_exists empty_world (target_path (\<lambda>c. False) ?r)"
    by (simp add: path_exists_def empty_world_def)
  have h2: "git host_ok (clone_call (\<lambda>c. False) ?r []) = Completed True"
    by (simp add: host_ok_def)
  have n: "clean_filename (\<lambda>c. False) (name ?r @ py ''_'' @ owner ?r) = py ''repo_alice''"
    using target_alice by (simp add: target_path_def folder_name_def)
  from clone_target_directory [OF h1 h2] h1 h2 n show ?thesis by simp
qed

text \<open>
  The claim C7 as stated fails: for the repository \<open>alice/repo\<close> the sanitized
  \<open>full_name\<close> is \<open>alice_repo\<close>, and the directory created is \<open>repo_alice\<close>; no
  directory \<open>alice_repo\<close> exists after the clone.
\<close>

theorem clone_target_directory_counterexample:
  "full_name (example_repo ''alice'' ''repo'' 7) = py ''alice/repo''
   \<and> clean_filename (\<lambda>c. False) (full_name (example_repo ''alice'' ''repo'' 7)) = py ''alice_repo''
   \<and> fs (snd (clone_single_repo (\<lambda>c. False) host_ok (example_repo ''alice'' ''repo'' 7) []
        empty_world)) = {[py ''repo_alice'']}
   \<and> [clean_filename (\<lambda>c. False) (full_name (example_repo ''alice'' ''repo'' 7))] \<notin>
        fs (snd (clone_single_repo (\<lambda>c. False) host_ok (example_repo ''alice'' ''repo'' 7) []
          empty_world))"
proof -
  let ?r = "example_repo ''alice'' ''repo'' 7"
  have a: "full_name ?r = py ''alice/repo''"
    by (simp add: example_repo_def py_def)
  have b: "clean_filename (\<lambda>c. False) (full_name ?r) = py ''alice_repo''"
    by (simp add: clean_filename_def negated_class_def
      example_repo_def py_def alnum_def ascii_alnum_def underscore_def hyphen_def)
  have c: "fs (snd (clone_single_repo (\<lambda>c. False) host_ok ?r [] empty_world)) = {[py ''repo_alice'']}"
    by (auto simp: clone_single_repo_def target_alice path_exists_def empty_world_def
        subprocess_run_def host_ok_def call_alice rmtree_def startswith_def Let_def)
  have "py ''alice_repo'' \<noteq> py ''repo_alice''"
    by (simp add: py_def)
  with a b c show ?thesis by simp
qed

lemma count_loop_filter:
  "count_loop n results = n + length (filter (\<lambda>r. r \<noteq> None) results)"
proof (induction results arbitrary: n)
  case Nil
  then show ?case by simp
next
  case (Cons r results)
  then show ?case by (cases r) simp_all
qed

text \<open>
  C10. \<open>clone_single_repo\<close> returns the descriptor when the clone completes and
  \<open>None\<close> otherwise: \<open>None\<close> both for a descriptor skipped because its target exists
  and for one whose retrieval raised, so the caller cannot tell the two apart; and the
  count of successes is the number of results other than \<open>None\<close>, so both are left out
  of it alike.
\<close>

theorem clone_result_and_count:
  "fst (clone_single_repo U h repo_info token w) =
     (if path_exists w (target_path U repo_info) then None
      else case git h (clone_call U repo_info token) of
             Completed has_git \<Rightarrow> Some repo_info
           | Failed f left \<Rightarrow> None)
   \<and> count_successes results = length (filter (\<lambda>r. r \<noteq> None) results)"
  by (simp add: clone_single_repo_def subprocess_run_def Let_def count_successes_def
      count_loop_filter split: git_result.splits)

theorem clone_result_and_count_witness:
  "fst (clone_single_repo (\<lambda>c. False) host_ok (example_repo ''alice'' ''repo'' 7) []
      \<lparr>fs = {[py ''repo_alice'']}, calls = []\<rparr>) = None
   \<and> fst (clone_single_repo (\<lambda>c. False) host_timeout (example_repo ''alice'' ''repo'' 7) []
      empty_world) = None
   \<and> fst (clone_single_repo (\<lambda>c. False) host_ok (example_repo ''alice'' ''repo'' 7) []
      empty_world) = Some (example_repo ''alice'' ''repo'' 7)
   \<and> count_successes [None, Some (example_repo ''alice'' ''repo'' 7), None] = 1"
  using
    clone_result_and_count [of "\<lambda>c. False" host_ok "example_repo ''alice'' ''repo'' 7" "[]"
      "\<lparr>fs = {[py ''repo_alice'']}, calls = []\<rparr>"
      "[None, Some (example_repo ''alice'' ''repo'' 7), None]"]
    clone_result_and_count [of "\<lambda>c. False" host_timeout "example_repo ''alice'' ''repo'' 7" "[]"
      empty_world "[]"]
    clone_result_and_count [of "\<lambda>c. False" host_ok "example_repo ''alice'' ''repo'' 7" "[]"
      empty_world "[]"]
  by (simp add: target_alice path_exists_def empty_world_def host_ok_def host_timeout_def)

section \<open>Properties of the report\<close>

lemma write_repos_map: "write_repos f repos = f @ map repo_line repos"
  by (induction repos arbitrary: f) simp_all

text \<open>
  C8. When the search found a repository, the report written after the loop over the
  results holds, in this order, the line with the timestamp, the line with the query,
  the line with the requested count, the line with the count of successes, a rule, and
  then exactly one line \<open>[stars*] full_name -> clone_url\<close> per descriptor that the
  search returned, in the order of the search, which is by stars, largest first. The
  results of the clone tasks enter the report through the count of successes only.
\<close>

theorem report_lists_every_descriptor:
  "main_report api timestamp user_query user_limit user_token results =
     (if search_github api user_query user_limit user_token = [] then None
      else Some
        ([py ''Rapport g'' @ [233] @ py ''n'' @ [233] @ py ''r'' @ [233] @ py '' le ''
            @ timestamp @ [10],
          py ''Recherche : '' @ user_query @ [10],
          py ''Projets demand'' @ [233] @ py ''s : '' @ str_int user_limit @ [10],
          py ''Projets t'' @ [233] @ py ''l'' @ [233] @ py ''charg'' @ [233] @ py ''s : ''
            @ str_int (int (count_successes results)) @ [10],
          replicate 30 hyphen @ [10]]
         @ map (\<lambda>r. py ''['' @ str_int (stars r) @ [9733] @ py ''] '' @ full_name r
                  @ py '' -> '' @ clone_url r @ [10])
             (search_github api user_query user_limit user_token)))
   \<and> sorted_wrt (\<ge>) (map stars (search_github api user_query user_limit user_token))"
proof -
  have "repo_line = (\<lambda>r. py ''['' @ str_int (stars r) @ [9733] @ py ''] '' @ full_name r
      @ py '' -> '' @ clone_url r @ [10])"
    by (rule ext) (simp add: repo_line_def)
  then show ?thesis
    using sorted_search_github [of api user_query user_limit user_token]
    by (simp add: main_report_def write_report_def write_repos_map Let_def)
qed

lemma str_int_examples:
  "str_int 50 = py ''50''" "str_int 40 = py ''40''" "str_int 30 = py ''30''"
  "str_int 3 = py ''3''" "str_int (int 2) = py ''2''"
  by (simp_all add: str_int_def nat_digits.simps py_def)

theorem report_lists_every_descriptor_witness:
  "main_report (api_script [Reply 200 five_items]) (py ''2026-01-01_10h00m'') (py ''X'') 3 []
      [Some (example_repo ''b'' ''r2'' 50), None, Some (example_repo ''c'' ''r3'' 30)] =
     Some
       [py ''Rapport g'' @ [233] @ py ''n'' @ [233] @ py ''r'' @ [233]
          @ py '' le 2026-01-01_10h00m'' @ [10],
        py ''Recherche : X'' @ [10],
        py ''Projets demand'' @ [233] @ py ''s : 3'' @ [10],
        py ''Projets t'' @ [233] @ py ''l'' @ [233] @ py ''charg'' @ [233] @ py ''s : 2'' @ [10],
        py ''------------------------------'' @ [10],
        py ''[50'' @ [9733] @ py ''] b/r2 -> https://github.com/b/r2.git'' @ [10],
        py ''[40'' @ [9733] @ py ''] a/r1 -> https://github.com/a/r1.git'' @ [10],
        py ''[30'' @ [9733] @ py ''] c/r3 -> https://github.com/c/r3.git'' @ [10]]"
proof -
  have c: "count_successes
      [Some (example_repo ''b'' ''r2'' 50), None, Some (example_repo ''c'' ''r3'' 30)] = 2"
    by (simp add: count_successes_def)
  have h: "replicate 30 hyphen = py ''------------------------------''"
    by (simp add: hyphen_def py_def eval_nat_numeral)
  from report_lists_every_descriptor [of "api_script [Reply 200 five_items]"
      "py ''2026-01-01_10h00m''" "py ''X''" 3 "[]"
      "[Some (example_repo ''b'' ''r2'' 50), None, Some (example_repo ''c'' ''r3'' 30)]"]
  show ?thesis
    unfolding github_five c h
    by (simp add: example_repo_def str_int_examples [simplified]) (simp add: py_def)
qed

end
